theory Spec2Isabelle
  imports Main
begin

section \<open>AiSettingsService (ai-settings.service.ts)\<close>

text \<open>
  The settings service holds one global switch and a map of per-chat overrides, keyed by
  phone number. The optional argument of \<open>isOrchestratorEnabled\<close> is a \<open>string option\<close>;
  the empty string is falsy in the source and is treated like a missing argument.
\<close>

record AiSettings =
  orchestratorEnabled :: bool
  chatOverrides :: "string \<rightharpoonup> bool"

definition initialSettings :: AiSettings where
  "initialSettings = \<lparr>orchestratorEnabled = True, chatOverrides = Map.empty\<rparr>"

definition setGlobalOrchestrator :: "bool \<Rightarrow> AiSettings \<Rightarrow> AiSettings" where
  "setGlobalOrchestrator enabled a = a\<lparr>orchestratorEnabled := enabled\<rparr>"

definition setChatOrchestrator :: "string \<Rightarrow> bool \<Rightarrow> AiSettings \<Rightarrow> AiSettings" where
  "setChatOrchestrator phoneNumber enabled a =
     a\<lparr>chatOverrides := (chatOverrides a)(phoneNumber \<mapsto> enabled)\<rparr>"

definition clearChatOverride :: "string \<Rightarrow> AiSettings \<Rightarrow> AiSettings" where
  "clearChatOverride phoneNumber a =
     a\<lparr>chatOverrides := (chatOverrides a)(phoneNumber := None)\<rparr>"

definition isOrchestratorEnabled :: "AiSettings \<Rightarrow> string option \<Rightarrow> bool" where
  "isOrchestratorEnabled a phoneNumber =
     (if \<not> orchestratorEnabled a then False
      else (case phoneNumber of
              None \<Rightarrow> True
            | Some p \<Rightarrow>
                if p = [] then True
                else (case chatOverrides a p of Some override \<Rightarrow> override | None \<Rightarrow> True)))"

section \<open>Data of the message orchestrator (message-orchestrator.service.ts)\<close>

record ChatMessage =
  msg_id :: string
  body :: "string option"
  fromMe :: bool
  timestamp :: int

text \<open>Every field of the configuration is optional: \<open>None\<close> is \<open>undefined\<close>.\<close>

record MessageOrchestratorConfig =
  sendSeenStatus :: "bool option"
  showTypingIndicator :: "bool option"
  skipAiResponse :: "bool option"

text \<open>
  What the timer callback closes over: the arguments of \<open>processIncomingMessage\<close> and the
  process id minted for the submission.
\<close>

record generation =
  g_phoneNumber :: string
  g_session :: string
  g_config :: MessageOrchestratorConfig
  g_processId :: string

datatype error = SendFailed | GenerationFailed

text \<open>
  The interaction log of one timer callback: the calls it awaits, in the order it issues
  them, and the values the two data-returning collaborators hand back.
\<close>

datatype event =
    SendSeenStatus string string
  | StartTyping string string
  | StopTyping string string
  | GetMessageHistory string
  | HistoryResult "ChatMessage list"
  | GenerateResponseWithEscalation "ChatMessage list"
  | GenerateResult string bool
  | NotifyHumanAgent string string "ChatMessage list"
  | SendResponse string string string
  | SendErrorResponse string string

text \<open>
  The suspension points of the callback. A suspended callback keeps the local variables
  that are still live: the history, the generated text and the escalation flag.
\<close>

datatype pc =
    AwaitSeen
  | AwaitStartTyping
  | AwaitTypingDelay
  | AwaitStopAbort
  | AwaitHistory
  | AwaitStopGreeting
  | AwaitSendGreeting
  | AwaitGenerate "ChatMessage list"
  | AwaitStopReply "ChatMessage list" string bool
  | AwaitNotify
  | AwaitSendReply
  | AwaitStopCatch
  | AwaitSendError
  | Done
  | Rejected error

text \<open>
  How an awaited collaborator call comes back: \<open>ok\<close> is false when the underlying call
  fails; the other fields are what the history store and the generator return.
\<close>

record outcome =
  ok :: bool
  rows :: "ChatMessage list"
  reply_text :: string
  reply_escalate :: bool

text \<open>
  The service's three maps, the settings service it consults, and the runtime around it:
  the armed \<open>setTimeout\<close> handles with their callbacks, the callbacks that have started,
  and the log of what each of them did. A handle is its number in creation order.
\<close>

record orchestrator =
  pendingMessageTimeouts :: "string \<rightharpoonup> nat"
  activeProcessIds :: "string \<rightharpoonup> string"
  escalatedConversations :: "string \<rightharpoonup> bool"
  aiSettingsService :: AiSettings
  timers :: "nat \<rightharpoonup> generation"
  timerSeq :: nat
  tasks :: "nat \<rightharpoonup> generation \<times> pc"
  trace :: "(nat \<times> event) list"

definition initialOrchestrator :: orchestrator where
  "initialOrchestrator =
     \<lparr>pendingMessageTimeouts = Map.empty, activeProcessIds = Map.empty,
      escalatedConversations = Map.empty, aiSettingsService = initialSettings,
      timers = Map.empty, timerSeq = 0, tasks = Map.empty, trace = []\<rparr>"

section \<open>Escalation registry\<close>

definition makeEscalationKey :: "string \<Rightarrow> string \<Rightarrow> string" where
  "makeEscalationKey phoneNumber session = session @ '':'' @ phoneNumber"

definition isConversationEscalated :: "orchestrator \<Rightarrow> string \<Rightarrow> string \<Rightarrow> bool" where
  "isConversationEscalated st phoneNumber session =
     (escalatedConversations st (makeEscalationKey phoneNumber session) = Some True)"

definition setConversationEscalated ::
  "string \<Rightarrow> string \<Rightarrow> bool \<Rightarrow> orchestrator \<Rightarrow> orchestrator" where
  "setConversationEscalated phoneNumber session v st =
     (if v
      then st\<lparr>escalatedConversations :=
                (escalatedConversations st)(makeEscalationKey phoneNumber session \<mapsto> True)\<rparr>
      else st\<lparr>escalatedConversations :=
                (escalatedConversations st)(makeEscalationKey phoneNumber session := None)\<rparr>)"

definition clearEscalation :: "string \<Rightarrow> string \<Rightarrow> orchestrator \<Rightarrow> orchestrator" where
  "clearEscalation phoneNumber session st = setConversationEscalated phoneNumber session False st"

section \<open>Submission: the synchronous part of processIncomingMessage\<close>

definition clearTimeout :: "nat \<Rightarrow> orchestrator \<Rightarrow> orchestrator" where
  "clearTimeout t st = st\<lparr>timers := (timers st)(t := None)\<rparr>"

definition setTimeout :: "generation \<Rightarrow> orchestrator \<Rightarrow> nat \<times> orchestrator" where
  "setTimeout g st =
     (timerSeq st, st\<lparr>timers := (timers st)(timerSeq st \<mapsto> g), timerSeq := Suc (timerSeq st)\<rparr>)"

text \<open>
  \<open>processId\<close> is the string \<open>Date.now().toString() + Math.random().toString()\<close> of the
  source, drawn by the caller of the model. The random wait time only decides when the
  timer fires, which the model leaves to the order of the actions.
\<close>

definition processIncomingMessage ::
  "string \<Rightarrow> string \<Rightarrow> MessageOrchestratorConfig \<Rightarrow> string \<Rightarrow> orchestrator \<Rightarrow> orchestrator" where
  "processIncomingMessage phoneNumber session config processId st =
     (if \<not> isOrchestratorEnabled (aiSettingsService st) (Some phoneNumber) then st
      else if isConversationEscalated st phoneNumber session then st
      else if skipAiResponse config = Some True then st
      else
        let st1 = st\<lparr>activeProcessIds := (activeProcessIds st)(phoneNumber \<mapsto> processId)\<rparr>;
            st2 = (case pendingMessageTimeouts st1 phoneNumber of
                     Some existingTimeout \<Rightarrow> clearTimeout existingTimeout st1
                   | None \<Rightarrow> st1);
            (timeout, st3) =
               setTimeout \<lparr>g_phoneNumber = phoneNumber, g_session = session,
                           g_config = config, g_processId = processId\<rparr> st2
        in st3\<lparr>pendingMessageTimeouts := (pendingMessageTimeouts st3)(phoneNumber \<mapsto> timeout)\<rparr>)"

section \<open>The private methods around the collaborators\<close>

text \<open>
  Each private method awaits one collaborator call inside its own try/catch. Given how
  that call comes back, the function says what the method hands to its caller: \<open>Inl\<close> is
  a rethrown error. The presence methods, the notification and the apology swallow every
  failure; only \<open>sendResponse\<close> rethrows. \<open>getMessageHistory\<close> of the chat service answers
  a failed lookup with the empty history.
\<close>

definition sendSeenStatusResult :: "outcome \<Rightarrow> error + unit" where
  "sendSeenStatusResult r = (if ok r then Inr () else Inr ())"

definition startTypingResult :: "outcome \<Rightarrow> error + unit" where
  "startTypingResult r = (if ok r then Inr () else Inr ())"

definition stopTypingResult :: "outcome \<Rightarrow> error + unit" where
  "stopTypingResult r = (if ok r then Inr () else Inr ())"

definition sendResponseResult :: "outcome \<Rightarrow> error + unit" where
  "sendResponseResult r = (if ok r then Inr () else Inl SendFailed)"

definition sendErrorResponseResult :: "outcome \<Rightarrow> error + unit" where
  "sendErrorResponseResult r = (if ok r then Inr () else Inr ())"

definition notifyHumanAgentResult :: "outcome \<Rightarrow> error + unit" where
  "notifyHumanAgentResult r = (if ok r then Inr () else Inr ())"

definition getMessageHistory :: "outcome \<Rightarrow> error + ChatMessage list" where
  "getMessageHistory r = (if ok r then Inr (rows r) else Inr [])"

definition generateResponseWithEscalation :: "outcome \<Rightarrow> error + string \<times> bool" where
  "generateResponseWithEscalation r =
     (if ok r then Inr (reply_text r, reply_escalate r) else Inl GenerationFailed)"

definition defaultGreeting :: string where
  "defaultGreeting = ''Halo! Ada yang bisa saya bantu?''"

definition apologyText :: string where
  "apologyText = ''Maaf, terjadi kesalahan. Mohon coba lagi atau hubungi admin kami.''"

subsection \<open>What reaches the WhatsApp transport\<close>

datatype waha_call =
    WahaSendSeen string string
  | WahaStartTyping string string
  | WahaStopTyping string string
  | WahaSendText string string string

definition lastUserMsg :: "ChatMessage list \<Rightarrow> string" where
  "lastUserMsg history =
     (case find (\<lambda>m. \<not> fromMe m) (rev history) of
        None \<Rightarrow> ''(tidak ada teks pengguna)''
      | Some m \<Rightarrow>
          (case body m of
             None \<Rightarrow> ''(tidak ada teks pengguna)''
           | Some b \<Rightarrow> if b = [] then ''(tidak ada teks pengguna)'' else b))"

text \<open>The alert text; the leading siren emoji is written as its four UTF-8 bytes.\<close>

definition escalationAlert :: "string \<Rightarrow> string \<Rightarrow> ChatMessage list \<Rightarrow> string" where
  "escalationAlert customerPhone session history =
     [CHR 0xF0, CHR 0x9F, CHR 0x9A, CHR 0xA8] @ '' *Escalation to Human CS*'' @ [CHR 0x0A, CHR 0x0A]
     @ ''*Customer*: '' @ customerPhone @ [CHR 0x0A]
     @ ''*Session*: '' @ session @ [CHR 0x0A, CHR 0x0A]
     @ ''*Last user message:*'' @ [CHR 0x0A] @ lastUserMsg history @ [CHR 0x0A, CHR 0x0A]
     @ ''_AI menandai kasus ini perlu ditindaklanjuti oleh petugas manusia._''"

text \<open>
  The transport calls behind each awaited call; \<open>csChatId\<close> is the environment variable
  \<open>HUMAN_CS_WHATSAPP_ID\<close> (empty when unset, and then the notification is skipped).
\<close>

fun wahaCalls :: "string \<Rightarrow> event \<Rightarrow> waha_call list" where
  "wahaCalls csChatId (SendSeenStatus chatId session) = [WahaSendSeen chatId session]"
| "wahaCalls csChatId (StartTyping chatId session) = [WahaStartTyping chatId session]"
| "wahaCalls csChatId (StopTyping chatId session) = [WahaStopTyping chatId session]"
| "wahaCalls csChatId (SendResponse chatId text session) = [WahaSendText chatId text session]"
| "wahaCalls csChatId (SendErrorResponse chatId session) =
     [WahaSendText chatId apologyText session]"
| "wahaCalls csChatId (NotifyHumanAgent customerPhone session history) =
     (if csChatId = [] then []
      else [WahaSendText csChatId (escalationAlert customerPhone session history) session])"
| "wahaCalls csChatId _ = []"

section \<open>The timer callback, one suspension at a time\<close>

definition typingOn :: "generation \<Rightarrow> bool" where
  "typingOn g = (showTypingIndicator (g_config g) \<noteq> Some False)"

definition seenOn :: "generation \<Rightarrow> bool" where
  "seenOn g = (sendSeenStatus (g_config g) \<noteq> Some False)"

definition isCurrent :: "orchestrator \<Rightarrow> generation \<Rightarrow> bool" where
  "isCurrent st g = (activeProcessIds st (g_phoneNumber g) = Some (g_processId g))"

type_synonym continuation = "pc \<times> event list \<times> orchestrator"

text \<open>The catch block of the callback: stop typing when the indicator is configured, then apologise.\<close>

definition catchBlock :: "generation \<Rightarrow> orchestrator \<Rightarrow> continuation" where
  "catchBlock g st =
     (if typingOn g then (AwaitStopCatch, [StopTyping (g_phoneNumber g) (g_session g)], st)
      else (AwaitSendError, [SendErrorResponse (g_phoneNumber g) (g_session g)], st))"

text \<open>The straight-line pieces of the try block, each up to its next await.\<close>

definition fetchHistory :: "generation \<Rightarrow> orchestrator \<Rightarrow> error + continuation" where
  "fetchHistory g st = Inr (AwaitHistory, [GetMessageHistory (g_phoneNumber g)], st)"

definition afterSeen :: "generation \<Rightarrow> orchestrator \<Rightarrow> error + continuation" where
  "afterSeen g st =
     (if typingOn g then Inr (AwaitStartTyping, [StartTyping (g_phoneNumber g) (g_session g)], st)
      else fetchHistory g st)"

definition afterTypingStopped ::
  "generation \<Rightarrow> ChatMessage list \<Rightarrow> string \<Rightarrow> bool \<Rightarrow> orchestrator \<Rightarrow> error + continuation" where
  "afterTypingStopped g history aiResponse escalate st =
     (if escalate
      then Inr (AwaitNotify, [NotifyHumanAgent (g_phoneNumber g) (g_session g) history],
                setConversationEscalated (g_phoneNumber g) (g_session g) True st)
      else Inr (AwaitSendReply, [SendResponse (g_phoneNumber g) aiResponse (g_session g)], st))"

fun tryBlock :: "generation \<Rightarrow> pc \<Rightarrow> outcome \<Rightarrow> orchestrator \<Rightarrow> error + continuation" where
  "tryBlock g AwaitSeen r st =
     (case sendSeenStatusResult r of Inl e \<Rightarrow> Inl e | Inr _ \<Rightarrow> afterSeen g st)"
| "tryBlock g AwaitStartTyping r st =
     (case startTypingResult r of Inl e \<Rightarrow> Inl e | Inr _ \<Rightarrow> Inr (AwaitTypingDelay, [], st))"
| "tryBlock g AwaitTypingDelay r st =
     (if \<not> isCurrent st g
      then Inr (AwaitStopAbort, [StopTyping (g_phoneNumber g) (g_session g)], st)
      else fetchHistory g st)"
| "tryBlock g AwaitStopAbort r st =
     (case stopTypingResult r of Inl e \<Rightarrow> Inl e | Inr _ \<Rightarrow> Inr (Done, [], st))"
| "tryBlock g AwaitHistory r st =
     (case getMessageHistory r of
        Inl e \<Rightarrow> Inl e
      | Inr history \<Rightarrow>
          if length history = 0
          then (if typingOn g
                then Inr (AwaitStopGreeting,
                          [HistoryResult history, StopTyping (g_phoneNumber g) (g_session g)], st)
                else Inr (AwaitSendGreeting,
                          [HistoryResult history,
                           SendResponse (g_phoneNumber g) defaultGreeting (g_session g)], st))
          else Inr (AwaitGenerate history,
                    [HistoryResult history, GenerateResponseWithEscalation history], st))"
| "tryBlock g AwaitStopGreeting r st =
     (case stopTypingResult r of
        Inl e \<Rightarrow> Inl e
      | Inr _ \<Rightarrow> Inr (AwaitSendGreeting,
                      [SendResponse (g_phoneNumber g) defaultGreeting (g_session g)], st))"
| "tryBlock g AwaitSendGreeting r st =
     (case sendResponseResult r of Inl e \<Rightarrow> Inl e | Inr _ \<Rightarrow> Inr (Done, [], st))"
| "tryBlock g (AwaitGenerate history) r st =
     (case generateResponseWithEscalation r of
        Inl e \<Rightarrow> Inl e
      | Inr (aiResponse, escalate) \<Rightarrow>
          if typingOn g
          then Inr (AwaitStopReply history aiResponse escalate,
                    [GenerateResult aiResponse escalate,
                     StopTyping (g_phoneNumber g) (g_session g)], st)
          else (case afterTypingStopped g history aiResponse escalate st of
                  Inl e \<Rightarrow> Inl e
                | Inr (pc', evs, st') \<Rightarrow> Inr (pc', GenerateResult aiResponse escalate # evs, st')))"
| "tryBlock g (AwaitStopReply history aiResponse escalate) r st =
     (case stopTypingResult r of
        Inl e \<Rightarrow> Inl e
      | Inr _ \<Rightarrow> afterTypingStopped g history aiResponse escalate st)"
| "tryBlock g AwaitNotify r st =
     (case notifyHumanAgentResult r of Inl e \<Rightarrow> Inl e | Inr _ \<Rightarrow> Inr (Done, [], st))"
| "tryBlock g AwaitSendReply r st =
     (case sendResponseResult r of Inl e \<Rightarrow> Inl e | Inr _ \<Rightarrow> Inr (Done, [], st))"
| "tryBlock g pc r st = Inr (pc, [], st)"

text \<open>
  Resuming a suspended callback with the outcome of the call it awaits. Inside the try
  block an error goes to the catch block; an error escaping the catch block would reject
  the callback's promise.
\<close>

fun resume :: "generation \<Rightarrow> pc \<Rightarrow> outcome \<Rightarrow> orchestrator \<Rightarrow> continuation" where
  "resume g AwaitStopCatch r st =
     (case stopTypingResult r of
        Inl e \<Rightarrow> (AwaitSendError, [SendErrorResponse (g_phoneNumber g) (g_session g)], st)
      | Inr _ \<Rightarrow> (AwaitSendError, [SendErrorResponse (g_phoneNumber g) (g_session g)], st))"
| "resume g AwaitSendError r st =
     (case sendErrorResponseResult r of Inl e \<Rightarrow> (Rejected e, [], st) | Inr _ \<Rightarrow> (Done, [], st))"
| "resume g Done r st = (Done, [], st)"
| "resume g (Rejected e) r st = (Rejected e, [], st)"
| "resume g pc r st = (case tryBlock g pc r st of Inl e \<Rightarrow> catchBlock g st | Inr k \<Rightarrow> k)"

text \<open>
  The callback as the timer starts it: the first currency check, the removal of the
  pending entry, and the run up to the first await.
\<close>

definition timerCallback :: "generation \<Rightarrow> orchestrator \<Rightarrow> continuation" where
  "timerCallback g st =
     (if \<not> isCurrent st g then (Done, [], st)
      else
        let st' = st\<lparr>pendingMessageTimeouts :=
                       (pendingMessageTimeouts st)(g_phoneNumber g := None)\<rparr>
        in (case (if seenOn g
                  then Inr (AwaitSeen, [SendSeenStatus (g_phoneNumber g) (g_session g)], st')
                  else afterSeen g st')
            of Inl e \<Rightarrow> catchBlock g st' | Inr k \<Rightarrow> k))"

section \<open>The event loop\<close>

text \<open>
  Node runs one piece of code at a time: a submission up to the end of its synchronous
  part, a timer callback up to its first await, a resumed callback up to its next await.
  An action is one such piece; any order of actions is a possible run.
\<close>

datatype action =
    Submit string string MessageOrchestratorConfig string
  | Fire nat
  | Resume nat outcome
  | ClearEscalation string string
  | SetGlobal bool
  | SetChat string bool
  | ClearChat string

definition tag :: "nat \<Rightarrow> event list \<Rightarrow> (nat \<times> event) list" where
  "tag t evs = map (Pair t) evs"

definition install :: "nat \<Rightarrow> generation \<Rightarrow> continuation \<Rightarrow> orchestrator" where
  "install t g k =
     (case k of (pc', evs, st') \<Rightarrow>
        st'\<lparr>tasks := (tasks st')(t \<mapsto> (g, pc')), trace := trace st' @ tag t evs\<rparr>)"

fun step :: "action \<Rightarrow> orchestrator \<Rightarrow> orchestrator" where
  "step (Submit phoneNumber session config processId) st =
     processIncomingMessage phoneNumber session config processId st"
| "step (Fire t) st =
     (case timers st t of
        None \<Rightarrow> st
      | Some g \<Rightarrow> install t g (timerCallback g (clearTimeout t st)))"
| "step (Resume t r) st =
     (case tasks st t of
        None \<Rightarrow> st
      | Some (g, pc) \<Rightarrow> install t g (resume g pc r st))"
| "step (ClearEscalation phoneNumber session) st = clearEscalation phoneNumber session st"
| "step (SetGlobal enabled) st =
     st\<lparr>aiSettingsService := setGlobalOrchestrator enabled (aiSettingsService st)\<rparr>"
| "step (SetChat phoneNumber enabled) st =
     st\<lparr>aiSettingsService := setChatOrchestrator phoneNumber enabled (aiSettingsService st)\<rparr>"
| "step (ClearChat phoneNumber) st =
     st\<lparr>aiSettingsService := clearChatOverride phoneNumber (aiSettingsService st)\<rparr>"

definition run :: "action list \<Rightarrow> orchestrator \<Rightarrow> orchestrator" where
  "run acts st = foldl (\<lambda>s a. step a s) st acts"

text \<open>What one callback did: its part of the log.\<close>

definition eventsOf :: "nat \<Rightarrow> orchestrator \<Rightarrow> event list" where
  "eventsOf t st = map snd (filter (\<lambda>x. fst x = t) (trace st))"

section \<open>Reading the log\<close>

text \<open>Which awaited call an entry of the log records.\<close>

fun isStartTyping :: "event \<Rightarrow> bool" where
  "isStartTyping (StartTyping _ _) = True" | "isStartTyping _ = False"

fun isStopTyping :: "event \<Rightarrow> bool" where
  "isStopTyping (StopTyping _ _) = True" | "isStopTyping _ = False"

fun isSendResponse :: "event \<Rightarrow> bool" where
  "isSendResponse (SendResponse _ _ _) = True" | "isSendResponse _ = False"

fun isSendErrorResponse :: "event \<Rightarrow> bool" where
  "isSendErrorResponse (SendErrorResponse _ _) = True" | "isSendErrorResponse _ = False"

fun isNotifyHumanAgent :: "event \<Rightarrow> bool" where
  "isNotifyHumanAgent (NotifyHumanAgent _ _ _) = True" | "isNotifyHumanAgent _ = False"

fun isGenerate :: "event \<Rightarrow> bool" where
  "isGenerate (GenerateResponseWithEscalation _) = True" | "isGenerate _ = False"

section \<open>Reachable states\<close>

text \<open>
  What holds of the runtime in every state the event loop can reach: an armed timer has
  a handle below the counter, has not started its callback, is the pending entry of its
  phone number and carries the process id that is current for it; started callbacks
  have handles below the counter; and only started callbacks have entries in the log.
\<close>

definition wf :: "orchestrator \<Rightarrow> bool" where
  "wf st \<longleftrightarrow>
     (\<forall>t g. timers st t = Some g \<longrightarrow>
        t < timerSeq st \<and> tasks st t = None
        \<and> pendingMessageTimeouts st (g_phoneNumber g) = Some t \<and> isCurrent st g)
     \<and> (\<forall>t. tasks st t \<noteq> None \<longrightarrow> t < timerSeq st)
     \<and> (\<forall>x \<in> set (trace st). tasks st (fst x) \<noteq> None)"

text \<open>
  The log of one callback at each suspension point. \<open>pre\<close> is what it does before the
  history lookup, \<open>stopE\<close> the typing-stop it issues when the indicator is configured;
  \<open>thrown\<close> lists the logs with which the catch block can be entered (the generator
  failed, the reply could not be sent, the greeting could not be sent).
\<close>

definition pre :: "generation \<Rightarrow> event list" where
  "pre g = (if seenOn g then [SendSeenStatus (g_phoneNumber g) (g_session g)] else [])
           @ (if typingOn g then [StartTyping (g_phoneNumber g) (g_session g)] else [])"

definition stopE :: "generation \<Rightarrow> event list" where
  "stopE g = (if typingOn g then [StopTyping (g_phoneNumber g) (g_session g)] else [])"

definition asked :: "generation \<Rightarrow> ChatMessage list \<Rightarrow> event list" where
  "asked g h = pre g @ [GetMessageHistory (g_phoneNumber g), HistoryResult h,
                        GenerateResponseWithEscalation h]"

definition answered :: "generation \<Rightarrow> ChatMessage list \<Rightarrow> string \<Rightarrow> bool \<Rightarrow> event list" where
  "answered g h t e = asked g h @ [GenerateResult t e] @ stopE g"

definition greeted :: "generation \<Rightarrow> event list" where
  "greeted g = pre g @ [GetMessageHistory (g_phoneNumber g), HistoryResult []] @ stopE g
               @ [SendResponse (g_phoneNumber g) defaultGreeting (g_session g)]"

definition replied :: "generation \<Rightarrow> ChatMessage list \<Rightarrow> string \<Rightarrow> event list" where
  "replied g h t = answered g h t False @ [SendResponse (g_phoneNumber g) t (g_session g)]"

definition escalated :: "generation \<Rightarrow> ChatMessage list \<Rightarrow> string \<Rightarrow> event list" where
  "escalated g h t = answered g h t True @ [NotifyHumanAgent (g_phoneNumber g) (g_session g) h]"

definition thrown :: "generation \<Rightarrow> event list \<Rightarrow> bool" where
  "thrown g evs \<longleftrightarrow>
     (\<exists>h. h \<noteq> [] \<and> evs = asked g h) \<or> (\<exists>h t. h \<noteq> [] \<and> evs = replied g h t) \<or> evs = greeted g"

definition apologised :: "generation \<Rightarrow> event list \<Rightarrow> event list" where
  "apologised g evs = evs @ stopE g @ [SendErrorResponse (g_phoneNumber g) (g_session g)]"

fun shape :: "generation \<Rightarrow> pc \<Rightarrow> event list \<Rightarrow> bool" where
  "shape g AwaitSeen evs \<longleftrightarrow>
     seenOn g \<and> evs = [SendSeenStatus (g_phoneNumber g) (g_session g)]"
| "shape g AwaitStartTyping evs \<longleftrightarrow> typingOn g \<and> evs = pre g"
| "shape g AwaitTypingDelay evs \<longleftrightarrow> typingOn g \<and> evs = pre g"
| "shape g AwaitStopAbort evs \<longleftrightarrow>
     typingOn g \<and> evs = pre g @ [StopTyping (g_phoneNumber g) (g_session g)]"
| "shape g AwaitHistory evs \<longleftrightarrow> evs = pre g @ [GetMessageHistory (g_phoneNumber g)]"
| "shape g AwaitStopGreeting evs \<longleftrightarrow>
     typingOn g \<and> evs = pre g @ [GetMessageHistory (g_phoneNumber g), HistoryResult [],
                                  StopTyping (g_phoneNumber g) (g_session g)]"
| "shape g AwaitSendGreeting evs \<longleftrightarrow> evs = greeted g"
| "shape g (AwaitGenerate h) evs \<longleftrightarrow> h \<noteq> [] \<and> evs = asked g h"
| "shape g (AwaitStopReply h t e) evs \<longleftrightarrow> typingOn g \<and> h \<noteq> [] \<and> evs = answered g h t e"
| "shape g AwaitNotify evs \<longleftrightarrow> (\<exists>h t. h \<noteq> [] \<and> evs = escalated g h t)"
| "shape g AwaitSendReply evs \<longleftrightarrow> (\<exists>h t. h \<noteq> [] \<and> evs = replied g h t)"
| "shape g AwaitStopCatch evs \<longleftrightarrow>
     typingOn g \<and> (\<exists>b. thrown g b \<and> evs = b @ [StopTyping (g_phoneNumber g) (g_session g)])"
| "shape g AwaitSendError evs \<longleftrightarrow> (\<exists>b. thrown g b \<and> evs = apologised g b)"
| "shape g Done evs \<longleftrightarrow>
     evs = []
     \<or> (typingOn g \<and> evs = pre g @ [StopTyping (g_phoneNumber g) (g_session g)])
     \<or> evs = greeted g
     \<or> (\<exists>h t. h \<noteq> [] \<and> evs = escalated g h t)
     \<or> (\<exists>h t. h \<noteq> [] \<and> evs = replied g h t)
     \<or> (\<exists>b. thrown g b \<and> evs = apologised g b)"
| "shape g (Rejected e) evs \<longleftrightarrow> False"

definition shaped :: "orchestrator \<Rightarrow> bool" where
  "shaped st \<longleftrightarrow> (\<forall>t g pc. tasks st t = Some (g, pc) \<longrightarrow> shape g pc (eventsOf t st))"

text \<open>
  An upper bound on the number of resumptions a suspended callback still needs, and the
  resumptions of one callback among a list of actions.
\<close>

fun isResumeOf :: "nat \<Rightarrow> action \<Rightarrow> bool" where
  "isResumeOf t (Resume u r) = (u = t)" | "isResumeOf t _ = False"

fun remaining :: "pc \<Rightarrow> nat" where
  "remaining AwaitSeen = 9"
| "remaining AwaitStartTyping = 8"
| "remaining AwaitTypingDelay = 7"
| "remaining AwaitHistory = 6"
| "remaining (AwaitGenerate h) = 5"
| "remaining AwaitStopGreeting = 4"
| "remaining (AwaitStopReply h t e) = 4"
| "remaining AwaitSendGreeting = 3"
| "remaining AwaitSendReply = 3"
| "remaining AwaitStopCatch = 2"
| "remaining AwaitStopAbort = 1"
| "remaining AwaitNotify = 1"
| "remaining AwaitSendError = 1"
| "remaining Done = 0"
| "remaining (Rejected e) = 0"

section \<open>Sample data and worked runs\<close>

definition defaultConfig :: MessageOrchestratorConfig where
  "defaultConfig = \<lparr>sendSeenStatus = None, showTypingIndicator = None, skipAiResponse = None\<rparr>"

definition mediaConfig :: MessageOrchestratorConfig where
  "mediaConfig = \<lparr>sendSeenStatus = None, showTypingIndicator = None, skipAiResponse = Some True\<rparr>"

definition returned :: outcome where
  "returned = \<lparr>ok = True, rows = [], reply_text = [], reply_escalate = False\<rparr>"

definition failed :: outcome where
  "failed = \<lparr>ok = False, rows = [], reply_text = [], reply_escalate = False\<rparr>"

definition question :: ChatMessage where
  "question = \<lparr>msg_id = ''m1'', body = Some ''halo'', fromMe = False, timestamp = 0\<rparr>"

definition historyOf :: "ChatMessage list \<Rightarrow> outcome" where
  "historyOf h = \<lparr>ok = True, rows = h, reply_text = [], reply_escalate = False\<rparr>"

definition generated :: "string \<Rightarrow> bool \<Rightarrow> outcome" where
  "generated t e = \<lparr>ok = True, rows = [], reply_text = t, reply_escalate = e\<rparr>"

definition gen :: "string \<Rightarrow> string \<Rightarrow> string \<Rightarrow> generation" where
  "gen phoneNumber session processId =
     \<lparr>g_phoneNumber = phoneNumber, g_session = session, g_config = defaultConfig,
      g_processId = processId\<rparr>"

definition replyRun :: "action list" where
  "replyRun =
     [Resume 0 returned, Resume 0 returned, Resume 0 returned, Resume 0 (historyOf [question]),
      Resume 0 (generated ''ok'' False), Resume 0 returned, Resume 0 returned,
      Resume 0 returned, Resume 0 returned]"

definition started :: "action list" where
  "started = [Submit ''6281'' ''default'' defaultConfig ''id1'', Fire 0]"

definition sendFailsRun :: "action list" where
  "sendFailsRun =
     started @
     [Resume 0 returned, Resume 0 returned, Resume 0 returned, Resume 0 (historyOf [question]),
      Resume 0 (generated ''ok'' False), Resume 0 returned, Resume 0 failed,
      Resume 0 returned, Resume 0 returned]"

definition supersededRun :: "action list" where
  "supersededRun =
     started @
     [Resume 0 returned, Resume 0 returned, Resume 0 returned, Resume 0 (historyOf [question]),
      Submit ''6281'' ''default'' defaultConfig ''id2'',
      Resume 0 (generated ''ok'' False)]"

definition escalationRun :: "action list" where
  "escalationRun =
     started @
     [Resume 0 returned, Resume 0 returned, Resume 0 returned, Resume 0 (historyOf [question]),
      Submit ''6281'' ''default'' defaultConfig ''id2'',
      Resume 0 (generated ''perlu petugas'' True), Resume 0 returned]"

definition greetingRun :: "action list" where
  "greetingRun =
     started @
     [Resume 0 returned, Resume 0 returned, Resume 0 returned, Resume 0 (historyOf []),
      Resume 0 returned, Resume 0 returned]"

definition escalatedTyping :: "action list" where
  "escalatedTyping =
     started @
     [Resume 0 returned, Resume 0 returned, Resume 0 returned, Resume 0 (historyOf [question]),
      Resume 0 (generated ''perlu petugas'' True)]"

definition burst :: "action list" where
  "burst = [Submit ''6281'' ''default'' defaultConfig ''id1'',
            Submit ''6281'' ''default'' defaultConfig ''id2'']"

section \<open>Unfolding rules\<close>

lemmas sample_defs =
  defaultConfig_def mediaConfig_def returned_def failed_def question_def historyOf_def
  generated_def gen_def

lemmas submit_defs =
  processIncomingMessage_def isOrchestratorEnabled_def isConversationEscalated_def
  makeEscalationKey_def setTimeout_def clearTimeout_def setConversationEscalated_def

lemmas callback_defs =
  timerCallback_def isCurrent_def seenOn_def typingOn_def catchBlock_def fetchHistory_def
  afterSeen_def afterTypingStopped_def sendSeenStatusResult_def startTypingResult_def
  stopTypingResult_def sendResponseResult_def sendErrorResponseResult_def
  notifyHumanAgentResult_def getMessageHistory_def generateResponseWithEscalation_def

lemmas loop_defs = run_def install_def tag_def eventsOf_def clearEscalation_def

lemmas run_defs =
  replyRun_def started_def sendFailsRun_def supersededRun_def escalationRun_def greetingRun_def
  escalatedTyping_def burst_def

lemmas eval_defs =
  run_defs loop_defs submit_defs callback_defs sample_defs initialOrchestrator_def
  initialSettings_def

section \<open>The settings gate\<close>

theorem isOrchestratorEnabled_override_counterexample:
  "chatOverrides (setChatOrchestrator ''6281'' True (setGlobalOrchestrator False initialSettings))
     ''6281'' = Some True
   \<and> isOrchestratorEnabled
       (setChatOrchestrator ''6281'' True (setGlobalOrchestrator False initialSettings))
       (Some ''6281'') = False"
  by (simp add: setChatOrchestrator_def setGlobalOrchestrator_def initialSettings_def
      isOrchestratorEnabled_def)

text \<open>
  C5 (amended). The global switch is checked first: when it is off, \<open>isOrchestratorEnabled\<close>
  is false for every phone number, whatever the override. When it is on, an override for a
  non-empty phone number wins, and a phone number without override is enabled. In terms
  of the setters: after the global switch is set to \<open>e\<close> and the override of \<open>p\<close> to
  \<open>v\<close>, the answer for \<open>p\<close> is \<open>e \<and> v\<close> (or \<open>e\<close> for the empty phone number); after the
  override is cleared it is \<open>e\<close>.
\<close>

theorem isOrchestratorEnabled_global_then_override:
  "isOrchestratorEnabled a (Some p) =
     (orchestratorEnabled a \<and> (case chatOverrides a p of Some v \<Rightarrow> p = [] \<or> v | None \<Rightarrow> True))
   \<and> isOrchestratorEnabled (setChatOrchestrator p v (setGlobalOrchestrator e a)) (Some p) =
       (e \<and> (p = [] \<or> v))
   \<and> isOrchestratorEnabled (clearChatOverride p (setGlobalOrchestrator e a)) (Some p) = e
   \<and> isOrchestratorEnabled (setGlobalOrchestrator False a) k = False"
  by (auto simp: isOrchestratorEnabled_def setChatOrchestrator_def setGlobalOrchestrator_def
      clearChatOverride_def split: option.splits)

section \<open>Submissions that are refused\<close>

text \<open>
  C8. A submission for a conversation that is escalated, or for which orchestration is
  disabled (globally or for the chat), leaves the whole state as it is: no process id is
  recorded, no timer is armed or cleared, no callback is started and nothing is added to
  the log.
\<close>

theorem processIncomingMessage_refused:
  assumes "isConversationEscalated st phoneNumber session
           \<or> \<not> isOrchestratorEnabled (aiSettingsService st) (Some phoneNumber)"
  shows "processIncomingMessage phoneNumber session config processId st = st
         \<and> step (Submit phoneNumber session config processId) st = st"
  using assms by (auto simp: processIncomingMessage_def)

theorem processIncomingMessage_refused_witness:
  "isConversationEscalated (setConversationEscalated ''6281'' ''default'' True initialOrchestrator)
     ''6281'' ''default''
   \<and> \<not> isOrchestratorEnabled
         (aiSettingsService
            (step (SetChat ''6282'' False) initialOrchestrator)) (Some ''6282'')
   \<and> processIncomingMessage ''6281'' ''default'' defaultConfig ''17''
       (setConversationEscalated ''6281'' ''default'' True initialOrchestrator)
     = setConversationEscalated ''6281'' ''default'' True initialOrchestrator
   \<and> step (Submit ''6282'' ''default'' defaultConfig ''18'')
       (step (SetChat ''6282'' False) initialOrchestrator)
     = step (SetChat ''6282'' False) initialOrchestrator"
proof -
  let ?s1 = "setConversationEscalated ''6281'' ''default'' True initialOrchestrator"
  let ?s2 = "step (SetChat ''6282'' False) initialOrchestrator"
  have e1: "isConversationEscalated ?s1 ''6281'' ''default''"
    by (simp add: isConversationEscalated_def setConversationEscalated_def)
  have e2: "\<not> isOrchestratorEnabled (aiSettingsService ?s2) (Some ''6282'')"
    by (simp add: isOrchestratorEnabled_def setChatOrchestrator_def initialOrchestrator_def
        initialSettings_def)
  from e1 e2
    processIncomingMessage_refused [of ?s1 "''6281''" "''default''" defaultConfig "''17''"]
    processIncomingMessage_refused [of ?s2 "''6282''" "''default''" defaultConfig "''18''"]
  show ?thesis by blast
qed

text \<open>
  C10. A submission with \<open>skipAiResponse = true\<close> returns before a process id is minted:
  the current-generation map, the pending-timer map, the escalation map and the armed
  timers are unchanged (the whole state is), so it supersedes and cancels nothing.
\<close>

theorem processIncomingMessage_skipAiResponse:
  assumes "skipAiResponse config = Some True"
  shows "processIncomingMessage phoneNumber session config processId st = st"
  using assms by (simp add: processIncomingMessage_def)

theorem processIncomingMessage_skipAiResponse_witness:
  "skipAiResponse mediaConfig = Some True
   \<and> processIncomingMessage ''6281'' ''default'' mediaConfig ''19''
       (run [Submit ''6281'' ''default'' defaultConfig ''17''] initialOrchestrator)
     = run [Submit ''6281'' ''default'' defaultConfig ''17''] initialOrchestrator"
proof -
  have h: "skipAiResponse mediaConfig = Some True" by (simp add: mediaConfig_def)
  from h processIncomingMessage_skipAiResponse [OF h] show ?thesis by blast
qed

section \<open>The invariant of the runtime\<close>

lemma resume_state:
  "resume g pc r st = (pc', evs, st') \<Longrightarrow>
   st' = st \<or> st' = setConversationEscalated (g_phoneNumber g) (g_session g) True st"
  by (cases pc) (auto simp: callback_defs split: if_splits sum.splits prod.splits)

lemma timerCallback_state:
  "timerCallback g st = (pc', evs, st') \<Longrightarrow>
   (\<not> isCurrent st g \<and> st' = st \<and> pc' = Done \<and> evs = []) \<or>
   (isCurrent st g \<and> pc' \<noteq> Done \<and>
    st' = st\<lparr>pendingMessageTimeouts := (pendingMessageTimeouts st)(g_phoneNumber g := None)\<rparr>)"
  by (auto simp: callback_defs Let_def split: if_splits sum.splits prod.splits)

lemma wf_timer:
  "wf st \<Longrightarrow> timers st t = Some g \<Longrightarrow>
   t < timerSeq st \<and> tasks st t = None
   \<and> pendingMessageTimeouts st (g_phoneNumber g) = Some t \<and> isCurrent st g"
  by (simp add: wf_def)

lemma wf_task: "wf st \<Longrightarrow> tasks st t = Some x \<Longrightarrow> t < timerSeq st"
  by (simp add: wf_def)

lemma wf_trace: "wf st \<Longrightarrow> (t, e) \<in> set (trace st) \<Longrightarrow> tasks st t \<noteq> None"
  by (force simp: wf_def)

lemma wf_fresh: "wf st \<Longrightarrow> tasks st (timerSeq st) = None \<and> timers st (timerSeq st) = None"
  using wf_task [of st "timerSeq st"] wf_timer [of st "timerSeq st"]
  by (cases "tasks st (timerSeq st)"; cases "timers st (timerSeq st)") auto

lemma wf_initial: "wf initialOrchestrator"
  by (simp add: wf_def initialOrchestrator_def)

lemma submit_accepted:
  assumes "isOrchestratorEnabled (aiSettingsService st) (Some p)"
    and "\<not> isConversationEscalated st p s" and "skipAiResponse cfg \<noteq> Some True"
  shows "processIncomingMessage p s cfg pid st =
     st\<lparr>activeProcessIds := (activeProcessIds st)(p \<mapsto> pid),
        timers := (case pendingMessageTimeouts st p of
                     Some t \<Rightarrow> (timers st)(t := None) | None \<Rightarrow> timers st)
                  (timerSeq st \<mapsto> \<lparr>g_phoneNumber = p, g_session = s, g_config = cfg,
                                    g_processId = pid\<rparr>),
        timerSeq := Suc (timerSeq st),
        pendingMessageTimeouts := (pendingMessageTimeouts st)(p \<mapsto> timerSeq st)\<rparr>"
  using assms
  by (simp add: processIncomingMessage_def setTimeout_def clearTimeout_def Let_def
      split: option.splits)

lemma submit_refused:
  assumes "\<not> (isOrchestratorEnabled (aiSettingsService st) (Some p)
    \<and> \<not> isConversationEscalated st p s \<and> skipAiResponse cfg \<noteq> Some True)"
  shows "processIncomingMessage p s cfg pid st = st"
  using assms by (auto simp: processIncomingMessage_def)

lemma wf_submit:
  assumes w: "wf st"
  shows "wf (processIncomingMessage p s cfg pid st)"
proof (cases "isOrchestratorEnabled (aiSettingsService st) (Some p)
    \<and> \<not> isConversationEscalated st p s \<and> skipAiResponse cfg \<noteq> Some True")
  case False
  then show ?thesis using w by (simp add: submit_refused)
next
  case True
  let ?g = "\<lparr>g_phoneNumber = p, g_session = s, g_config = cfg, g_processId = pid\<rparr>"
  let ?st = "processIncomingMessage p s cfg pid st"
  have eq: "?st = st\<lparr>activeProcessIds := (activeProcessIds st)(p \<mapsto> pid),
        timers := (case pendingMessageTimeouts st p of
                     Some t \<Rightarrow> (timers st)(t := None) | None \<Rightarrow> timers st)
                  (timerSeq st \<mapsto> ?g),
        timerSeq := Suc (timerSeq st),
        pendingMessageTimeouts := (pendingMessageTimeouts st)(p \<mapsto> timerSeq st)\<rparr>"
    using True by (simp add: submit_accepted)
  have a: "t < timerSeq ?st \<and> tasks ?st t = None
        \<and> pendingMessageTimeouts ?st (g_phoneNumber g) = Some t \<and> isCurrent ?st g"
    if h: "timers ?st t = Some g" for t g
  proof (cases "t = timerSeq st")
    case True
    with h have "g = ?g" by (simp add: eq)
    with True wf_fresh [OF w] show ?thesis by (simp add: eq isCurrent_def)
  next
    case False
    with h have old: "timers st t = Some g" and np: "pendingMessageTimeouts st p \<noteq> Some t"
      by (auto simp: eq split: option.splits if_splits)
    from wf_timer [OF w old] np have "g_phoneNumber g \<noteq> p" by auto
    with wf_timer [OF w old] show ?thesis by (simp add: eq isCurrent_def)
  qed
  have b: "t < timerSeq ?st" if "tasks ?st t \<noteq> None" for t
    using that wf_task [OF w, of t] by (auto simp: eq)
  have c: "tasks ?st (fst x) \<noteq> None" if "x \<in> set (trace ?st)" for x
    using that wf_trace [OF w, of "fst x" "snd x"] by (simp add: eq)
  from a b c show ?thesis unfolding wf_def by blast
qed

lemma wf_fire:
  assumes w: "wf st" and tm: "timers st t = Some g"
  shows "wf (install t g (timerCallback g (clearTimeout t st)))"
proof -
  let ?c = "clearTimeout t st"
  obtain pc' evs st' where k: "timerCallback g ?c = (pc', evs, st')"
    by (cases "timerCallback g ?c") auto
  let ?st = "install t g (pc', evs, st')"
  from timerCallback_state [OF k]
  have s': "st' = ?c \<or> st' = ?c\<lparr>pendingMessageTimeouts :=
                (pendingMessageTimeouts ?c)(g_phoneNumber g := None)\<rparr>"
    by auto
  have tmr: "timers ?st = (timers st)(t := None)" and seq: "timerSeq ?st = timerSeq st"
    and act: "activeProcessIds ?st = activeProcessIds st"
    and tsk: "tasks ?st = (tasks st)(t \<mapsto> (g, pc'))"
    and trc: "trace ?st = trace st @ tag t evs"
    using s' by (auto simp: install_def clearTimeout_def)
  have pnd: "pendingMessageTimeouts ?st q = pendingMessageTimeouts st q"
    if "q \<noteq> g_phoneNumber g" for q
    using s' that by (auto simp: install_def clearTimeout_def)
  have a: "u < timerSeq ?st \<and> tasks ?st u = None
        \<and> pendingMessageTimeouts ?st (g_phoneNumber h) = Some u \<and> isCurrent ?st h"
    if h: "timers ?st u = Some h" for u h
  proof -
    from h have ne: "u \<noteq> t" and old: "timers st u = Some h"
      by (auto simp: tmr split: if_splits)
    from wf_timer [OF w old] wf_timer [OF w tm] ne
    have "g_phoneNumber h \<noteq> g_phoneNumber g" by auto
    with wf_timer [OF w old] ne show ?thesis
      by (simp add: seq tsk pnd act isCurrent_def)
  qed
  have b: "u < timerSeq ?st" if "tasks ?st u \<noteq> None" for u
    using that wf_task [OF w, of u] wf_timer [OF w tm] by (auto simp: tsk seq split: if_splits)
  have c: "tasks ?st (fst x) \<noteq> None" if "x \<in> set (trace ?st)" for x
    using that wf_trace [OF w, of "fst x" "snd x"] by (auto simp: trc tsk tag_def)
  from a b c show ?thesis unfolding k wf_def by blast
qed

lemma wf_resume:
  assumes w: "wf st" and tk: "tasks st t = Some (g, pc)"
  shows "wf (install t g (resume g pc r st))"
proof -
  obtain pc' evs st' where k: "resume g pc r st = (pc', evs, st')"
    by (cases "resume g pc r st") auto
  let ?st = "install t g (pc', evs, st')"
  have tmr: "timers ?st = timers st" and seq: "timerSeq ?st = timerSeq st"
    and act: "activeProcessIds ?st = activeProcessIds st"
    and pnd: "pendingMessageTimeouts ?st = pendingMessageTimeouts st"
    and tsk: "tasks ?st = (tasks st)(t \<mapsto> (g, pc'))"
    and trc: "trace ?st = trace st @ tag t evs"
    using resume_state [OF k] by (auto simp: install_def setConversationEscalated_def)
  have a: "u < timerSeq ?st \<and> tasks ?st u = None
        \<and> pendingMessageTimeouts ?st (g_phoneNumber h) = Some u \<and> isCurrent ?st h"
    if h: "timers ?st u = Some h" for u h
    using wf_timer [OF w, of u h] h tk by (auto simp: tmr seq act pnd tsk isCurrent_def)
  have b: "u < timerSeq ?st" if "tasks ?st u \<noteq> None" for u
    using that wf_task [OF w, of u] wf_task [OF w tk] by (auto simp: tsk seq split: if_splits)
  have c: "tasks ?st (fst x) \<noteq> None" if "x \<in> set (trace ?st)" for x
    using that wf_trace [OF w, of "fst x" "snd x"] by (auto simp: trc tsk tag_def)
  from a b c show ?thesis unfolding k wf_def by blast
qed

lemma wf_step: "wf st \<Longrightarrow> wf (step a st)"
proof (cases a)
  case (Submit p s cfg pid)
  assume "wf st" then show ?thesis using Submit by (simp add: wf_submit)
next
  case (Fire t)
  assume "wf st" then show ?thesis using Fire by (auto simp: wf_fire split: option.splits)
next
  case (Resume t r)
  assume "wf st" then show ?thesis using Resume by (auto simp: wf_resume split: option.splits)
qed (auto simp: wf_def clearEscalation_def setConversationEscalated_def isCurrent_def)

lemma run_snoc: "run (acts @ [a]) st = step a (run acts st)"
  by (simp add: run_def)

lemma run_append: "run (acts @ acts') st = run acts' (run acts st)"
  by (simp add: run_def)

lemma wf_run: "wf st \<Longrightarrow> wf (run acts st)"
  by (induction acts rule: rev_induct) (simp_all add: run_snoc wf_step, simp add: run_def)

section \<open>The log of a callback\<close>

lemmas shape_defs =
  pre_def stopE_def asked_def answered_def greeted_def replied_def escalated_def thrown_def
  apologised_def

lemmas step_defs =
  catchBlock_def fetchHistory_def afterSeen_def afterTypingStopped_def
  sendSeenStatusResult_def startTypingResult_def stopTypingResult_def sendResponseResult_def
  sendErrorResponseResult_def notifyHumanAgentResult_def getMessageHistory_def
  generateResponseWithEscalation_def

lemma shape_timerCallback:
  "timerCallback g st = (pc, evs, st') \<Longrightarrow> shape g pc evs"
  by (auto simp: timerCallback_def step_defs pre_def Let_def split: if_splits)

lemma shape_resume:
  assumes "shape g pc evs" and "resume g pc r st = (pc', evs', st')"
  shows "shape g pc' (evs @ evs')"
  using assms
  by (cases pc) (auto simp: step_defs shape_defs split: if_splits)

lemma eventsOf_install:
  "eventsOf t (install u g (pc', evs, st')) = eventsOf t st' @ (if u = t then evs else [])"
  by (simp add: eventsOf_def install_def tag_def filter_map comp_def)

lemma eventsOf_fresh: "wf st \<Longrightarrow> tasks st t = None \<Longrightarrow> eventsOf t st = []"
  using wf_trace [of st t] by (auto simp: eventsOf_def filter_empty_conv)

lemma resume_trace: "resume g pc r st = (pc', evs, st') \<Longrightarrow> trace st' = trace st \<and> tasks st' = tasks st"
  by (drule resume_state) (auto simp: setConversationEscalated_def)

lemma timerCallback_trace:
  "timerCallback g st = (pc', evs, st') \<Longrightarrow> trace st' = trace st \<and> tasks st' = tasks st"
  by (drule timerCallback_state) auto

lemma submit_trace:
  "trace (processIncomingMessage p s cfg pid st) = trace st
   \<and> tasks (processIncomingMessage p s cfg pid st) = tasks st"
  by (cases "isOrchestratorEnabled (aiSettingsService st) (Some p)
    \<and> \<not> isConversationEscalated st p s \<and> skipAiResponse cfg \<noteq> Some True")
     (simp_all add: submit_accepted submit_refused)

lemma shaped_step:
  assumes w: "wf st" and sh: "shaped st"
  shows "shaped (step a st)"
proof (cases a)
  case (Submit p s cfg pid)
  then show ?thesis using sh by (simp add: shaped_def eventsOf_def submit_trace)
next
  case (Fire u)
  show ?thesis
  proof (cases "timers st u")
    case None
    then show ?thesis using Fire sh by simp
  next
    case (Some g)
    obtain pc' evs st' where k: "timerCallback g (clearTimeout u st) = (pc', evs, st')"
      by (cases "timerCallback g (clearTimeout u st)") auto
    from timerCallback_trace [OF k]
    have tr: "trace st' = trace st" and tk: "tasks st' = tasks st"
      by (simp_all add: clearTimeout_def)
    have ev: "eventsOf t st' = eventsOf t st" for t by (simp add: eventsOf_def tr)
    from wf_timer [OF w Some] have "tasks st u = None" by simp
    then have e0: "eventsOf u st = []" by (rule eventsOf_fresh [OF w])
    have "shape h pc (eventsOf t (install u g (pc', evs, st')))"
      if "tasks (install u g (pc', evs, st')) t = Some (h, pc)" for t h pc
    proof (cases "t = u")
      case True
      with that have "h = g" "pc = pc'" by (simp_all add: install_def)
      with True e0 shape_timerCallback [OF k] show ?thesis by (simp add: eventsOf_install ev)
    next
      case False
      with that have "tasks st t = Some (h, pc)" by (simp add: install_def tk)
      with sh False show ?thesis by (simp add: shaped_def eventsOf_install ev)
    qed
    then show ?thesis using Fire Some k by (simp add: shaped_def)
  qed
next
  case (Resume u r)
  show ?thesis
  proof (cases "tasks st u")
    case None
    then show ?thesis using Resume sh by simp
  next
    case (Some x)
    obtain g pc0 where x: "x = (g, pc0)" by (cases x)
    obtain pc' evs st' where k: "resume g pc0 r st = (pc', evs, st')"
      by (cases "resume g pc0 r st") auto
    from resume_trace [OF k] have tr: "trace st' = trace st" and tk: "tasks st' = tasks st"
      by simp_all
    have ev: "eventsOf t st' = eventsOf t st" for t by (simp add: eventsOf_def tr)
    from sh Some x have s0: "shape g pc0 (eventsOf u st)" by (simp add: shaped_def)
    have "shape h pc (eventsOf t (install u g (pc', evs, st')))"
      if "tasks (install u g (pc', evs, st')) t = Some (h, pc)" for t h pc
    proof (cases "t = u")
      case True
      with that have "h = g" "pc = pc'" by (simp_all add: install_def)
      with True shape_resume [OF s0 k] show ?thesis by (simp add: eventsOf_install ev)
    next
      case False
      with that have "tasks st t = Some (h, pc)" by (simp add: install_def tk)
      with sh False show ?thesis by (simp add: shaped_def eventsOf_install ev)
    qed
    then show ?thesis using Resume Some x k by (simp add: shaped_def)
  qed
next
  case (ClearEscalation p s)
  then show ?thesis using sh
    by (simp add: shaped_def eventsOf_def clearEscalation_def setConversationEscalated_def)
next
  case (SetGlobal e)
  then show ?thesis using sh by (simp add: shaped_def eventsOf_def)
next
  case (SetChat p e)
  then show ?thesis using sh by (simp add: shaped_def eventsOf_def)
next
  case (ClearChat p)
  then show ?thesis using sh by (simp add: shaped_def eventsOf_def)
qed

lemma shaped_run: "wf st \<Longrightarrow> shaped st \<Longrightarrow> shaped (run acts st)"
proof (induction acts rule: rev_induct)
  case Nil
  then show ?case by (simp add: run_def)
next
  case (snoc a acts)
  then show ?case by (simp add: run_snoc shaped_step wf_run)
qed

lemma reachable_shape:
  "tasks (run acts initialOrchestrator) t = Some (g, pc) \<Longrightarrow>
   shape g pc (eventsOf t (run acts initialOrchestrator))"
  using shaped_run [OF wf_initial, of acts]
  by (simp add: shaped_def initialOrchestrator_def)

section \<open>Every callback finishes\<close>

lemma resume_remaining: "remaining (fst (resume g pc r st)) \<le> remaining pc - 1"
  by (cases pc) (auto simp: step_defs split: if_splits)

lemma remaining_0: "remaining pc = 0 \<Longrightarrow> pc = Done \<or> (\<exists>e. pc = Rejected e)"
  by (cases pc) auto

lemma progress_step:
  assumes w: "wf st" and tk: "tasks st t = Some (g, pc)"
  shows "\<exists>pc'. tasks (step a st) t = Some (g, pc')
           \<and> remaining pc' \<le> remaining pc - (if isResumeOf t a then 1 else 0)"
proof (cases a)
  case (Submit p s cfg pid)
  then show ?thesis using tk by (simp add: submit_trace)
next
  case (Fire u)
  show ?thesis
  proof (cases "timers st u")
    case None
    then show ?thesis using Fire tk by simp
  next
    case (Some h)
    obtain pc' evs st' where k: "timerCallback h (clearTimeout u st) = (pc', evs, st')"
      by (cases "timerCallback h (clearTimeout u st)") auto
    from timerCallback_trace [OF k] have "tasks st' = tasks st" by (simp add: clearTimeout_def)
    moreover from wf_timer [OF w Some] tk have "u \<noteq> t" by auto
    ultimately show ?thesis using Fire Some k tk by (simp add: install_def)
  qed
next
  case (Resume u r)
  show ?thesis
  proof (cases "tasks st u")
    case None
    then show ?thesis using Resume tk by auto
  next
    case (Some x)
    obtain h pc0 where x: "x = (h, pc0)" by (cases x)
    obtain pc' evs st' where k: "resume h pc0 r st = (pc', evs, st')"
      by (cases "resume h pc0 r st") auto
    from resume_trace [OF k] have tk': "tasks st' = tasks st" by simp
    show ?thesis
    proof (cases "u = t")
      case True
      with Some x tk have "h = g" "pc0 = pc" by simp_all
      with resume_remaining [of g pc r st] k True Resume Some x tk' show ?thesis
        by (simp add: install_def)
    next
      case False
      then show ?thesis using Resume Some x k tk tk' by (simp add: install_def)
    qed
  qed
qed (use tk in \<open>simp_all add: clearEscalation_def setConversationEscalated_def\<close>)

lemma progress_run:
  assumes w: "wf st" and tk: "tasks st t = Some (g, pc)"
  shows "\<exists>pc'. tasks (run acts st) t = Some (g, pc')
           \<and> remaining pc' \<le> remaining pc - length (filter (isResumeOf t) acts)"
proof (induction acts rule: rev_induct)
  case Nil
  then show ?case using tk by (simp add: run_def)
next
  case (snoc a acts)
  then obtain pc1 where 1: "tasks (run acts st) t = Some (g, pc1)"
    and 2: "remaining pc1 \<le> remaining pc - length (filter (isResumeOf t) acts)" by blast
  from progress_step [OF wf_run [OF w] 1, of a]
  obtain pc2 where 3: "tasks (step a (run acts st)) t = Some (g, pc2)"
    and 4: "remaining pc2 \<le> remaining pc1 - (if isResumeOf t a then 1 else 0)" by blast
  from 2 4 have "remaining pc2 \<le> remaining pc - length (filter (isResumeOf t) (acts @ [a]))"
    by auto
  with 3 show ?case by (auto simp: run_snoc)
qed

lemma finishes:
  assumes tk: "tasks (run acts initialOrchestrator) t = Some (g, pc)"
    and n: "remaining pc \<le> length (filter (isResumeOf t) acts')"
  shows "tasks (run (acts @ acts') initialOrchestrator) t = Some (g, Done)"
proof -
  from progress_run [OF wf_run [OF wf_initial] tk, of acts'] n
  obtain pc' where 1: "tasks (run (acts @ acts') initialOrchestrator) t = Some (g, pc')"
    and 2: "remaining pc' = 0" by (auto simp: run_append)
  from reachable_shape [OF 1] have "\<forall>e. pc' \<noteq> Rejected e" by auto
  with remaining_0 [OF 2] 1 show ?thesis by auto
qed

section \<open>Typing indicator\<close>

lemma done_typing:
  assumes "shape g Done evs"
  shows "length (filter isStartTyping evs) \<le> 1
       \<and> (\<forall>e \<in> set (takeWhile (\<lambda>e. \<not> isStartTyping e) evs). \<not> isStopTyping e)
       \<and> (filter isStartTyping evs \<noteq> [] \<longrightarrow>
            length (filter isStopTyping evs) =
              (if (\<exists>e \<in> set evs. isSendResponse e) \<and> (\<exists>e \<in> set evs. isSendErrorResponse e)
               then 2 else 1))"
  using assms by (auto simp: shape_defs split: if_splits)

theorem typing_stop_exactly_once_counterexample:
  "tasks (run sendFailsRun initialOrchestrator) 0 = Some (gen ''6281'' ''default'' ''id1'', Done)
   \<and> length (filter isStartTyping (eventsOf 0 (run sendFailsRun initialOrchestrator))) = 1
   \<and> length (filter isStopTyping (eventsOf 0 (run sendFailsRun initialOrchestrator))) = 2"
  by (simp add: eval_defs)

text \<open>
  C2 (amended). A started callback that is resumed often enough finishes, whatever else
  happens in between and however its awaited calls come back. Its log then holds at most
  one typing-start, no typing-stop before it, and, when there is a typing-start, at
  least one typing-stop after it: exactly one on the reply, greeting, escalation and
  stale-abort paths and when the history lookup or the generator fails, and two when
  the send of the reply or of the greeting fails, since typing was stopped before the send
  and the catch block stops it again before the apology.
\<close>

theorem typing_stop_follows_start:
  assumes "tasks (run acts initialOrchestrator) t = Some (g, pc)"
    and "remaining pc \<le> length (filter (isResumeOf t) acts')"
  shows "tasks (run (acts @ acts') initialOrchestrator) t = Some (g, Done)
     \<and> (let evs = eventsOf t (run (acts @ acts') initialOrchestrator) in
          length (filter isStartTyping evs) \<le> 1
          \<and> (\<forall>e \<in> set (takeWhile (\<lambda>e. \<not> isStartTyping e) evs). \<not> isStopTyping e)
          \<and> (filter isStartTyping evs \<noteq> [] \<longrightarrow>
               length (filter isStopTyping evs) =
                 (if (\<exists>e \<in> set evs. isSendResponse e) \<and> (\<exists>e \<in> set evs. isSendErrorResponse e)
                  then 2 else 1)))"
proof -
  have d: "tasks (run (acts @ acts') initialOrchestrator) t = Some (g, Done)"
    using assms by (rule finishes)
  from done_typing [OF reachable_shape [OF d]] d show ?thesis by (simp add: Let_def)
qed

theorem typing_stop_follows_start_witness:
  "tasks (run started initialOrchestrator) 0 = Some (gen ''6281'' ''default'' ''id1'', AwaitSeen)
   \<and> remaining AwaitSeen \<le> length (filter (isResumeOf 0) replyRun)
   \<and> tasks (run (started @ replyRun) initialOrchestrator) 0
       = Some (gen ''6281'' ''default'' ''id1'', Done)
   \<and> length (filter isStartTyping (eventsOf 0 (run (started @ replyRun) initialOrchestrator))) = 1
   \<and> length (filter isStopTyping (eventsOf 0 (run (started @ replyRun) initialOrchestrator))) = 1"
proof -
  have h1: "tasks (run started initialOrchestrator) 0
              = Some (gen ''6281'' ''default'' ''id1'', AwaitSeen)"
    by (simp add: eval_defs)
  have h2: "remaining AwaitSeen \<le> length (filter (isResumeOf 0) replyRun)"
    by (simp add: replyRun_def)
  have h3: "filter isStartTyping (eventsOf 0 (run (started @ replyRun) initialOrchestrator))
              = [StartTyping ''6281'' ''default'']"
    by (simp add: eval_defs)
  have h4: "\<not> (\<exists>e \<in> set (eventsOf 0 (run (started @ replyRun) initialOrchestrator)).
                 isSendErrorResponse e)"
    by (simp add: eval_defs)
  from typing_stop_follows_start [OF h1 h2] h1 h2 h3 h4 show ?thesis
    by (simp add: Let_def)
qed

section \<open>Escalation\<close>

lemma escalate_shape:
  assumes "shape g pc evs" and "GenerateResult text True \<in> set evs"
  shows "filter isSendResponse evs = [] \<and> filter isSendErrorResponse evs = []
       \<and> (pc = Done \<or> pc = AwaitNotify \<or> (\<exists>h. pc = AwaitStopReply h text True))
       \<and> length (filter isNotifyHumanAgent evs) =
           (if \<exists>h. pc = AwaitStopReply h text True then 0 else 1)
       \<and> (\<forall>w \<in> set (concat (map (wahaCalls cs) evs)).
             case w of WahaSendText chat txt sess \<Rightarrow> chat = cs \<and> cs \<noteq> [] | _ \<Rightarrow> True)"
  using assms by (cases pc) (auto simp: shape_defs split: if_splits)

lemma resume_notify:
  assumes "resume g pc r st = (pc', evs, st')" and "\<exists>e \<in> set evs. isNotifyHumanAgent e"
  shows "isConversationEscalated st' (g_phoneNumber g) (g_session g)"
  using assms
  by (cases pc)
     (auto simp: step_defs isConversationEscalated_def setConversationEscalated_def
       split: if_splits)

lemma timerCallback_no_notify:
  "timerCallback g st = (pc, evs, st') \<Longrightarrow> \<forall>e \<in> set evs. \<not> isNotifyHumanAgent e"
  by (auto simp: timerCallback_def step_defs Let_def split: if_splits)

lemma notify_step:
  assumes tk: "tasks (step a st) t = Some (g, pc)"
    and new: "\<exists>e \<in> set (eventsOf t (step a st)). isNotifyHumanAgent e"
    and old: "\<forall>e \<in> set (eventsOf t st). \<not> isNotifyHumanAgent e"
  shows "isConversationEscalated (step a st) (g_phoneNumber g) (g_session g)"
proof (cases a)
  case (Submit p s cfg pid)
  then show ?thesis using new old by (simp add: eventsOf_def submit_trace)
next
  case (Fire u)
  show ?thesis
  proof (cases "timers st u")
    case None
    then show ?thesis using Fire new old by simp
  next
    case (Some h)
    obtain pc' evs st' where k: "timerCallback h (clearTimeout u st) = (pc', evs, st')"
      by (cases "timerCallback h (clearTimeout u st)") auto
    from timerCallback_trace [OF k] have "trace st' = trace st" by (simp add: clearTimeout_def)
    then have "eventsOf t st' = eventsOf t st" by (simp add: eventsOf_def)
    with timerCallback_no_notify [OF k] new old Fire Some k show ?thesis
      by (auto simp: eventsOf_install split: if_splits)
  qed
next
  case (Resume u r)
  show ?thesis
  proof (cases "tasks st u")
    case None
    then show ?thesis using Resume new old by simp
  next
    case (Some x)
    obtain h pc0 where x: "x = (h, pc0)" by (cases x)
    obtain pc' evs st' where k: "resume h pc0 r st = (pc', evs, st')"
      by (cases "resume h pc0 r st") auto
    from resume_trace [OF k] have "trace st' = trace st" by simp
    then have ev: "eventsOf t st' = eventsOf t st" by (simp add: eventsOf_def)
    from new old Resume Some x k ev have ut: "u = t" and n: "\<exists>e \<in> set evs. isNotifyHumanAgent e"
      by (auto simp: eventsOf_install split: if_splits)
    from tk Resume Some x k ut have "h = g" by (simp add: install_def)
    with resume_notify [OF k n] Resume Some x k show ?thesis
      by (simp add: install_def isConversationEscalated_def)
  qed
qed (use new old in \<open>simp_all add: eventsOf_def clearEscalation_def setConversationEscalated_def\<close>)

text \<open>
  C6. A callback whose generator call came back with \<open>escalate = true\<close> never calls
  \<open>sendResponse\<close> nor \<open>sendErrorResponse\<close>; the only text that reaches the transport
  is the alert to the operator chat. It is suspended at the typing-stop before the
  escalation, or it has called \<open>notifyHumanAgent\<close> exactly once; and in the state right
  after the action that issues this call the conversation is escalated.
\<close>

theorem escalation_notifies_once_and_sends_nothing:
  assumes "tasks (run (acts @ [a]) initialOrchestrator) t = Some (g, pc)"
    and "GenerateResult text True \<in> set (eventsOf t (run (acts @ [a]) initialOrchestrator))"
  shows "(let evs = eventsOf t (run (acts @ [a]) initialOrchestrator) in
            filter isSendResponse evs = [] \<and> filter isSendErrorResponse evs = []
          \<and> (pc = Done \<or> pc = AwaitNotify \<or> (\<exists>h. pc = AwaitStopReply h text True))
          \<and> length (filter isNotifyHumanAgent evs) =
              (if \<exists>h. pc = AwaitStopReply h text True then 0 else 1)
          \<and> (\<forall>w \<in> set (concat (map (wahaCalls cs) evs)).
                case w of WahaSendText chat txt sess \<Rightarrow> chat = cs \<and> cs \<noteq> [] | _ \<Rightarrow> True)
          \<and> ((\<exists>e \<in> set evs. isNotifyHumanAgent e)
               \<and> (\<forall>e \<in> set (eventsOf t (run acts initialOrchestrator)). \<not> isNotifyHumanAgent e)
               \<longrightarrow> isConversationEscalated (run (acts @ [a]) initialOrchestrator)
                     (g_phoneNumber g) (g_session g)))"
proof -
  note sh = escalate_shape [OF reachable_shape [OF assms(1)] assms(2), of cs]
  have "isConversationEscalated (run (acts @ [a]) initialOrchestrator)
          (g_phoneNumber g) (g_session g)"
    if "\<exists>e \<in> set (eventsOf t (run (acts @ [a]) initialOrchestrator)). isNotifyHumanAgent e"
      and "\<forall>e \<in> set (eventsOf t (run acts initialOrchestrator)). \<not> isNotifyHumanAgent e"
    using notify_step [of a "run acts initialOrchestrator" t g pc] assms(1) that
    by (simp add: run_snoc)
  with sh show ?thesis by (simp add: Let_def)
qed

theorem escalation_notifies_once_and_sends_nothing_witness:
  "tasks (run (escalatedTyping @ [Resume 0 returned]) initialOrchestrator) 0
      = Some (gen ''6281'' ''default'' ''id1'', AwaitNotify)
   \<and> GenerateResult ''perlu petugas'' True
       \<in> set (eventsOf 0 (run (escalatedTyping @ [Resume 0 returned]) initialOrchestrator))
   \<and> filter isSendResponse
       (eventsOf 0 (run (escalatedTyping @ [Resume 0 returned]) initialOrchestrator)) = []
   \<and> length (filter isNotifyHumanAgent
       (eventsOf 0 (run (escalatedTyping @ [Resume 0 returned]) initialOrchestrator))) = 1
   \<and> isConversationEscalated (run (escalatedTyping @ [Resume 0 returned]) initialOrchestrator)
       ''6281'' ''default''"
proof -
  let ?st = "run (escalatedTyping @ [Resume 0 returned]) initialOrchestrator"
  have h1: "tasks ?st 0 = Some (gen ''6281'' ''default'' ''id1'', AwaitNotify)"
    by (simp add: eval_defs)
  have h2: "GenerateResult ''perlu petugas'' True \<in> set (eventsOf 0 ?st)"
    by (simp add: eval_defs)
  have h3: "\<exists>e \<in> set (eventsOf 0 ?st). isNotifyHumanAgent e"
    by (simp add: eval_defs)
  have h4: "\<forall>e \<in> set (eventsOf 0 (run escalatedTyping initialOrchestrator)).
              \<not> isNotifyHumanAgent e"
    by (simp add: eval_defs)
  from escalation_notifies_once_and_sends_nothing [OF h1 h2, of "''6289@c.us''"] h1 h2 h3 h4
  show ?thesis by (simp add: Let_def gen_def)
qed

section \<open>Errors and the apology\<close>

lemma apology_shape:
  assumes "shape g pc evs"
  shows "(\<forall>e. pc \<noteq> Rejected e)
       \<and> length (filter isSendErrorResponse evs) \<le> 1
       \<and> ((\<exists>e \<in> set evs. isSendErrorResponse e) \<longrightarrow>
            (\<exists>b. evs = b @ (if typingOn g
                            then [StopTyping (g_phoneNumber g) (g_session g)] else [])
                        @ [SendErrorResponse (g_phoneNumber g) (g_session g)]
                 \<and> filter isSendErrorResponse b = []))"
  using assms by (cases pc) (auto simp: shape_defs split: if_splits)

text \<open>
  C7. A failing generator call or a failing send of the reply or greeting enters the
  catch block: it stops typing first (when the indicator is configured) and then sends
  the apology; neither of these two calls can fail the callback, which then returns. In
  every reachable state no callback is rejected, every callback has sent at most one
  apology, and an apology is immediately preceded by the typing-stop.
\<close>

theorem errors_caught_apology_at_most_once:
  assumes "tasks (run acts initialOrchestrator) t = Some (g, pc)" and "\<not> ok r"
  shows "(\<forall>e. pc \<noteq> Rejected e)
       \<and> (let evs = eventsOf t (run acts initialOrchestrator) in
            length (filter isSendErrorResponse evs) \<le> 1
            \<and> ((\<exists>e \<in> set evs. isSendErrorResponse e) \<longrightarrow>
                 (\<exists>b. evs = b @ (if typingOn g
                                 then [StopTyping (g_phoneNumber g) (g_session g)] else [])
                             @ [SendErrorResponse (g_phoneNumber g) (g_session g)]
                      \<and> filter isSendErrorResponse b = [])))
       \<and> (\<forall>st h. resume g (AwaitGenerate h) r st = catchBlock g st
                 \<and> resume g AwaitSendReply r st = catchBlock g st
                 \<and> resume g AwaitSendGreeting r st = catchBlock g st)
       \<and> (\<forall>st. catchBlock g st =
                 (if typingOn g
                  then (AwaitStopCatch, [StopTyping (g_phoneNumber g) (g_session g)], st)
                  else (AwaitSendError, [SendErrorResponse (g_phoneNumber g) (g_session g)], st)))
       \<and> (\<forall>st r'. resume g AwaitStopCatch r' st =
                    (AwaitSendError, [SendErrorResponse (g_phoneNumber g) (g_session g)], st)
                  \<and> resume g AwaitSendError r' st = (Done, [], st))"
  using apology_shape [OF reachable_shape [OF assms(1)]] assms(2)
  by (simp add: Let_def step_defs)

theorem errors_caught_apology_at_most_once_witness:
  "tasks (run sendFailsRun initialOrchestrator) 0 = Some (gen ''6281'' ''default'' ''id1'', Done)
   \<and> \<not> ok failed
   \<and> length (filter isSendErrorResponse (eventsOf 0 (run sendFailsRun initialOrchestrator))) \<le> 1
   \<and> resume (gen ''6281'' ''default'' ''id1'') AwaitSendReply failed initialOrchestrator
       = (AwaitStopCatch, [StopTyping ''6281'' ''default''], initialOrchestrator)"
proof -
  have h1: "tasks (run sendFailsRun initialOrchestrator) 0
              = Some (gen ''6281'' ''default'' ''id1'', Done)"
    by (simp add: eval_defs)
  have h2: "\<not> ok failed" by (simp add: failed_def)
  have h3: "typingOn (gen ''6281'' ''default'' ''id1'')" by (simp add: typingOn_def sample_defs)
  from errors_caught_apology_at_most_once [OF h1 h2] h1 h2 h3 show ?thesis
    by (simp add: Let_def gen_def)
qed

section \<open>Empty history\<close>

lemma greeting_shape:
  assumes "shape g pc evs" and "HistoryResult [] \<in> set evs"
  shows "filter isGenerate evs = [] \<and> (\<forall>t e. GenerateResult t e \<notin> set evs)
       \<and> filter isNotifyHumanAgent evs = []
       \<and> (pc \<noteq> AwaitStopGreeting \<longrightarrow>
            SendResponse (g_phoneNumber g) defaultGreeting (g_session g) \<in> set evs)
       \<and> (pc = AwaitStopGreeting \<or> pc = AwaitSendGreeting \<or> pc = AwaitStopCatch
          \<or> pc = AwaitSendError \<or> pc = Done)"
  using assms by (cases pc) (auto simp: shape_defs split: if_splits)

text \<open>
  C9. A callback whose history lookup came back empty never calls the generator, gets no
  generator result and never notifies the operator. It is either about to send the
  default greeting (suspended at the typing-stop before it, from where the next
  resumption sends it), or it has sent it.
\<close>

theorem empty_history_greets_without_generator:
  assumes "tasks (run acts initialOrchestrator) t = Some (g, pc)"
    and "HistoryResult [] \<in> set (eventsOf t (run acts initialOrchestrator))"
  shows "(let evs = eventsOf t (run acts initialOrchestrator) in
            filter isGenerate evs = [] \<and> (\<forall>t e. GenerateResult t e \<notin> set evs)
          \<and> filter isNotifyHumanAgent evs = []
          \<and> (pc \<noteq> AwaitStopGreeting \<longrightarrow>
               SendResponse (g_phoneNumber g) defaultGreeting (g_session g) \<in> set evs))
       \<and> (pc = AwaitStopGreeting \<or> pc = AwaitSendGreeting \<or> pc = AwaitStopCatch
          \<or> pc = AwaitSendError \<or> pc = Done)
       \<and> (\<forall>r st. resume g AwaitStopGreeting r st =
             (AwaitSendGreeting,
              [SendResponse (g_phoneNumber g) defaultGreeting (g_session g)], st))"
  using greeting_shape [OF reachable_shape [OF assms(1)] assms(2)]
  by (simp add: Let_def step_defs)

theorem empty_history_greets_without_generator_witness:
  "tasks (run greetingRun initialOrchestrator) 0 = Some (gen ''6281'' ''default'' ''id1'', Done)
   \<and> HistoryResult [] \<in> set (eventsOf 0 (run greetingRun initialOrchestrator))
   \<and> filter isGenerate (eventsOf 0 (run greetingRun initialOrchestrator)) = []
   \<and> SendResponse ''6281'' ''Halo! Ada yang bisa saya bantu?'' ''default''
       \<in> set (eventsOf 0 (run greetingRun initialOrchestrator))"
proof -
  have h1: "tasks (run greetingRun initialOrchestrator) 0
              = Some (gen ''6281'' ''default'' ''id1'', Done)"
    by (simp add: eval_defs)
  have h2: "HistoryResult [] \<in> set (eventsOf 0 (run greetingRun initialOrchestrator))"
    by (simp add: eval_defs)
  from empty_history_greets_without_generator [OF h1 h2] h1 h2 show ?thesis
    by (simp add: Let_def gen_def defaultGreeting_def)
qed

section \<open>Supersession\<close>

lemma aborted_step:
  assumes w: "wf st" and tk: "tasks st t = Some (g, pc)"
    and pc: "pc = AwaitStopAbort \<or> pc = Done"
  shows "\<exists>pc'. tasks (step a st) t = Some (g, pc') \<and> (pc' = AwaitStopAbort \<or> pc' = Done)
           \<and> eventsOf t (step a st) = eventsOf t st"
proof (cases a)
  case (Submit p s cfg pid)
  then show ?thesis using tk pc by (simp add: submit_trace eventsOf_def)
next
  case (Fire u)
  show ?thesis
  proof (cases "timers st u")
    case None
    then show ?thesis using Fire tk pc by simp
  next
    case (Some h)
    obtain pc' evs st' where k: "timerCallback h (clearTimeout u st) = (pc', evs, st')"
      by (cases "timerCallback h (clearTimeout u st)") auto
    from timerCallback_trace [OF k]
    have "tasks st' = tasks st" and "trace st' = trace st" by (simp_all add: clearTimeout_def)
    moreover from wf_timer [OF w Some] tk have "u \<noteq> t" by auto
    ultimately show ?thesis using Fire Some k tk pc
      by (simp add: eventsOf_install) (simp add: install_def eventsOf_def)
  qed
next
  case (Resume u r)
  show ?thesis
  proof (cases "tasks st u")
    case None
    then show ?thesis using Resume tk pc by auto
  next
    case (Some x)
    obtain h pc0 where x: "x = (h, pc0)" by (cases x)
    obtain pc' evs st' where k: "resume h pc0 r st = (pc', evs, st')"
      by (cases "resume h pc0 r st") auto
    from resume_trace [OF k] have tk': "tasks st' = tasks st" and tr: "trace st' = trace st"
      by simp_all
    have ev: "eventsOf t st' = eventsOf t st" by (simp add: eventsOf_def tr)
    show ?thesis
    proof (cases "u = t")
      case True
      with Some x tk have hg: "h = g" "pc0 = pc" by simp_all
      with k pc have "pc' = Done" "evs = []" by (auto simp: step_defs)
      with True Resume Some x k tk' ev hg show ?thesis
        by (simp add: eventsOf_install) (simp add: install_def)
    next
      case False
      then show ?thesis using Resume Some x k tk tk' ev pc
        by (simp add: eventsOf_install) (simp add: install_def)
    qed
  qed
qed (use tk pc in \<open>simp_all add: eventsOf_def clearEscalation_def setConversationEscalated_def\<close>)

lemma aborted_run:
  assumes w: "wf st" and tk: "tasks st t = Some (g, pc)"
    and pc: "pc = AwaitStopAbort \<or> pc = Done"
  shows "\<exists>pc'. tasks (run acts st) t = Some (g, pc') \<and> (pc' = AwaitStopAbort \<or> pc' = Done)
           \<and> eventsOf t (run acts st) = eventsOf t st"
proof (induction acts rule: rev_induct)
  case Nil
  then show ?case using tk pc by (simp add: run_def)
next
  case (snoc a acts)
  then obtain pc1 where 1: "tasks (run acts st) t = Some (g, pc1)"
    and 2: "pc1 = AwaitStopAbort \<or> pc1 = Done"
    and 3: "eventsOf t (run acts st) = eventsOf t st" by blast
  from aborted_step [OF wf_run [OF w] 1 2, of a] 3 show ?case by (auto simp: run_snoc)
qed

theorem superseded_generation_still_sends_counterexample:
  "\<not> isCurrent (run supersededRun initialOrchestrator) (gen ''6281'' ''default'' ''id1'')
   \<and> tasks (run supersededRun initialOrchestrator) 0
       = Some (gen ''6281'' ''default'' ''id1'', AwaitStopReply [question] ''ok'' False)
   \<and> filter isSendResponse (eventsOf 0 (run supersededRun initialOrchestrator)) = []
   \<and> filter isSendResponse
       (eventsOf 0 (run (supersededRun @ [Resume 0 returned]) initialOrchestrator))
       = [SendResponse ''6281'' ''ok'' ''default'']
   \<and> filter isSendErrorResponse
       (eventsOf 0 (run (supersededRun @ [Resume 0 returned, Resume 0 failed, Resume 0 returned])
          initialOrchestrator))
       = [SendErrorResponse ''6281'' ''default'']"
  by code_simp

text \<open>
  C1 (amended). Right after an accepted submission for a phone number, the only armed
  timer for that phone number is the one of this submission, it carries the process id
  that is now current, and no callback has been started or has logged anything; so in a
  burst of submissions with no timer expiring in between only the last one can start
  a pipeline. In every reachable state each armed timer carries the current process id
  of its phone number and is the only armed timer for it. A generation that finds
  itself superseded at one of its two currency checks sends nothing: at timer expiry it
  returns at once, and after the typing delay it only stops typing and returns; from
  then on its log never grows, whatever happens next.
\<close>

theorem only_last_submission_timer_armed:
  assumes "isOrchestratorEnabled (aiSettingsService (run acts initialOrchestrator)) (Some p)"
    and "\<not> isConversationEscalated (run acts initialOrchestrator) p s"
    and "skipAiResponse cfg \<noteq> Some True"
    and "\<not> isCurrent st g"
  shows "(let st0 = run acts initialOrchestrator;
              st1 = run (acts @ [Submit p s cfg pid]) initialOrchestrator in
            timers st1 (timerSeq st0)
              = Some \<lparr>g_phoneNumber = p, g_session = s, g_config = cfg, g_processId = pid\<rparr>
          \<and> activeProcessIds st1 p = Some pid
          \<and> (\<forall>u h. timers st1 u = Some h \<and> g_phoneNumber h = p \<longrightarrow> u = timerSeq st0)
          \<and> tasks st1 = tasks st0 \<and> trace st1 = trace st0)
       \<and> (\<forall>u h. timers (run acts initialOrchestrator) u = Some h \<longrightarrow>
             isCurrent (run acts initialOrchestrator) h
             \<and> tasks (run acts initialOrchestrator) u = None
             \<and> (\<forall>u' h'. timers (run acts initialOrchestrator) u' = Some h'
                          \<and> g_phoneNumber h' = g_phoneNumber h \<longrightarrow> u' = u))
       \<and> timerCallback g st = (Done, [], st)
       \<and> resume g AwaitTypingDelay r st
           = (AwaitStopAbort, [StopTyping (g_phoneNumber g) (g_session g)], st)
       \<and> (\<forall>r' st'. resume g AwaitStopAbort r' st' = (Done, [], st')
                   \<and> resume g Done r' st' = (Done, [], st'))
       \<and> (\<forall>t h acts'.
             tasks (run acts initialOrchestrator) t = Some (h, AwaitStopAbort)
             \<or> tasks (run acts initialOrchestrator) t = Some (h, Done) \<longrightarrow>
             eventsOf t (run (acts @ acts') initialOrchestrator)
               = eventsOf t (run acts initialOrchestrator))"
proof -
  let ?st0 = "run acts initialOrchestrator"
  let ?st1 = "run (acts @ [Submit p s cfg pid]) initialOrchestrator"
  have w0: "wf ?st0" by (rule wf_run [OF wf_initial])
  have w1: "wf ?st1" by (rule wf_run [OF wf_initial])
  have eq: "?st1 = processIncomingMessage p s cfg pid ?st0" by (simp add: run_snoc)
  note acc = submit_accepted [OF assms(1-3), of pid]
  have a: "timers ?st1 (timerSeq ?st0)
             = Some \<lparr>g_phoneNumber = p, g_session = s, g_config = cfg, g_processId = pid\<rparr>"
    and b: "activeProcessIds ?st1 p = Some pid"
    and c: "pendingMessageTimeouts ?st1 p = Some (timerSeq ?st0)"
    and d: "tasks ?st1 = tasks ?st0" and e: "trace ?st1 = trace ?st0"
    unfolding eq acc by simp_all
  have f: "u = timerSeq ?st0" if "timers ?st1 u = Some h" "g_phoneNumber h = p" for u h
    using wf_timer [OF w1 that(1)] that(2) c by simp
  have g: "isCurrent ?st0 h \<and> tasks ?st0 u = None
           \<and> (\<forall>u' h'. timers ?st0 u' = Some h' \<and> g_phoneNumber h' = g_phoneNumber h \<longrightarrow> u' = u)"
    if "timers ?st0 u = Some h" for u h
  proof -
    have "u' = u" if "timers ?st0 u' = Some h'" "g_phoneNumber h' = g_phoneNumber h" for u' h'
      using wf_timer [OF w0 that(1)] wf_timer [OF w0 \<open>timers ?st0 u = Some h\<close>] that(2) by simp
    with wf_timer [OF w0 that] show ?thesis by blast
  qed
  have h: "timerCallback g st = (Done, [], st)"
    and i: "resume g AwaitTypingDelay r st
              = (AwaitStopAbort, [StopTyping (g_phoneNumber g) (g_session g)], st)"
    using assms(4) by (simp_all add: timerCallback_def step_defs)
  have j: "resume g AwaitStopAbort r' st' = (Done, [], st')"
    and k: "resume g Done r' st' = (Done, [], st')" for r' st'
    by (simp_all add: step_defs)
  have l: "eventsOf t (run (acts @ acts') initialOrchestrator) = eventsOf t ?st0"
    if "tasks ?st0 t = Some (h, AwaitStopAbort) \<or> tasks ?st0 t = Some (h, Done)" for t h acts'
    using that aborted_run [OF w0, of t h AwaitStopAbort acts']
      aborted_run [OF w0, of t h Done acts']
    by (auto simp: run_append)
  from a b d e f g h i j k l show ?thesis unfolding Let_def by blast
qed

theorem only_last_submission_timer_armed_witness:
  "isOrchestratorEnabled (aiSettingsService (run burst initialOrchestrator)) (Some ''6281'')
   \<and> \<not> isConversationEscalated (run burst initialOrchestrator) ''6281'' ''default''
   \<and> skipAiResponse defaultConfig \<noteq> Some True
   \<and> \<not> isCurrent (run burst initialOrchestrator) (gen ''6281'' ''default'' ''id1'')
   \<and> timers (run (burst @ [Submit ''6281'' ''default'' defaultConfig ''id3''])
        initialOrchestrator) 2 = Some (gen ''6281'' ''default'' ''id3'')
   \<and> activeProcessIds (run (burst @ [Submit ''6281'' ''default'' defaultConfig ''id3''])
        initialOrchestrator) ''6281'' = Some ''id3''
   \<and> timerCallback (gen ''6281'' ''default'' ''id1'') (run burst initialOrchestrator)
       = (Done, [], run burst initialOrchestrator)"
proof -
  let ?st = "run burst initialOrchestrator"
  have h1: "isOrchestratorEnabled (aiSettingsService ?st) (Some ''6281'')"
    by (simp add: eval_defs)
  have h2: "\<not> isConversationEscalated ?st ''6281'' ''default''"
    by (simp add: eval_defs)
  have h3: "skipAiResponse defaultConfig \<noteq> Some True" by (simp add: defaultConfig_def)
  have h4: "\<not> isCurrent ?st (gen ''6281'' ''default'' ''id1'')"
    by (simp add: eval_defs)
  have h5: "timerSeq ?st = 2" by (simp add: eval_defs)
  from only_last_submission_timer_armed [OF h1 h2 h3 h4, of "''id3''"] h1 h2 h3 h4 h5
  show ?thesis by (simp add: Let_def gen_def)
qed

section \<open>What escalation leaves alone\<close>

theorem escalation_keeps_timer_and_token_counterexample:
  "isConversationEscalated (run escalationRun initialOrchestrator) ''6281'' ''default''
   \<and> timers (run escalationRun initialOrchestrator) 1 = Some (gen ''6281'' ''default'' ''id2'')
   \<and> pendingMessageTimeouts (run escalationRun initialOrchestrator) ''6281'' = Some 1
   \<and> isCurrent (run escalationRun initialOrchestrator) (gen ''6281'' ''default'' ''id2'')
   \<and> tasks (run (escalationRun @ [Fire 1]) initialOrchestrator) 1
        = Some (gen ''6281'' ''default'' ''id2'', AwaitSeen)
   \<and> eventsOf 1 (run (escalationRun @ [Fire 1]) initialOrchestrator)
        = [SendSeenStatus ''6281'' ''default'']"
  by code_simp

text \<open>
  C3 (amended). Setting the escalation flag makes the conversation escalated and touches
  neither the pending-timer map, nor the current-process-id map, nor the armed timers;
  no resumption of a callback (the escalation step included) touches them either. What
  escalation stops is later submissions: they are refused while the flag is set.
\<close>

theorem escalation_only_sets_flag:
  "isConversationEscalated (setConversationEscalated p s True st) p s
   \<and> pendingMessageTimeouts (setConversationEscalated p s v st) = pendingMessageTimeouts st
   \<and> activeProcessIds (setConversationEscalated p s v st) = activeProcessIds st
   \<and> timers (setConversationEscalated p s v st) = timers st
   \<and> (case resume g pc r st of (pc', evs, st') \<Rightarrow>
        pendingMessageTimeouts st' = pendingMessageTimeouts st
        \<and> activeProcessIds st' = activeProcessIds st \<and> timers st' = timers st)
   \<and> processIncomingMessage p s cfg pid (setConversationEscalated p s True st)
       = setConversationEscalated p s True st"
proof -
  obtain pc' evs st' where k: "resume g pc r st = (pc', evs, st')"
    by (cases "resume g pc r st") auto
  from resume_state [OF k]
  have "pendingMessageTimeouts st' = pendingMessageTimeouts st
        \<and> activeProcessIds st' = activeProcessIds st \<and> timers st' = timers st"
    by (auto simp: setConversationEscalated_def)
  moreover have "isConversationEscalated (setConversationEscalated p s True st) p s"
    by (simp add: isConversationEscalated_def setConversationEscalated_def)
  ultimately show ?thesis
    by (simp add: k processIncomingMessage_def) (simp add: setConversationEscalated_def)
qed

section \<open>The key of the scheduler maps\<close>

theorem sessions_share_slot_counterexample:
  "timers (run [Submit ''6281'' ''sessionA'' defaultConfig ''id1''] initialOrchestrator) 0
     = Some (gen ''6281'' ''sessionA'' ''id1'')
   \<and> activeProcessIds
       (run [Submit ''6281'' ''sessionA'' defaultConfig ''id1''] initialOrchestrator) ''6281''
     = Some ''id1''
   \<and> timers
       (run [Submit ''6281'' ''sessionA'' defaultConfig ''id1'',
             Submit ''6281'' ''sessionB'' defaultConfig ''id2''] initialOrchestrator) 0 = None
   \<and> activeProcessIds
       (run [Submit ''6281'' ''sessionA'' defaultConfig ''id1'',
             Submit ''6281'' ''sessionB'' defaultConfig ''id2''] initialOrchestrator) ''6281''
     = Some ''id2''"
  by (simp add: eval_defs)

text \<open>
  C4 (amended). The current-process-id map and the pending-timer map are keyed by the
  phone number alone; only the escalation map is keyed by session and phone number. An
  accepted submission, whatever its session, replaces the process id recorded for its
  phone number, clears the timer pending for that phone number and arms its own; the
  entries of every other phone number stay as they are.
\<close>

theorem slots_keyed_by_phone_number:
  assumes "isOrchestratorEnabled (aiSettingsService st) (Some p)"
    and "\<not> isConversationEscalated st p s"
    and "skipAiResponse cfg \<noteq> Some True"
  shows "(let st' = processIncomingMessage p s cfg pid st in
            activeProcessIds st' = (activeProcessIds st)(p \<mapsto> pid)
          \<and> pendingMessageTimeouts st' = (pendingMessageTimeouts st)(p \<mapsto> timerSeq st)
          \<and> timers st' =
              (case pendingMessageTimeouts st p of
                 Some t \<Rightarrow> (timers st)(t := None) | None \<Rightarrow> timers st)
              (timerSeq st \<mapsto>
                 \<lparr>g_phoneNumber = p, g_session = s, g_config = cfg, g_processId = pid\<rparr>)
          \<and> escalatedConversations st' = escalatedConversations st
          \<and> (\<forall>q. q \<noteq> p \<longrightarrow> activeProcessIds st' q = activeProcessIds st q
                           \<and> pendingMessageTimeouts st' q = pendingMessageTimeouts st q))"
  by (simp add: submit_accepted [OF assms] Let_def)

theorem slots_keyed_by_phone_number_witness:
  "isOrchestratorEnabled
     (aiSettingsService (run [Submit ''6281'' ''sessionA'' defaultConfig ''id1'']
        initialOrchestrator)) (Some ''6281'')
   \<and> \<not> isConversationEscalated
         (run [Submit ''6281'' ''sessionA'' defaultConfig ''id1''] initialOrchestrator)
         ''6281'' ''sessionB''
   \<and> skipAiResponse defaultConfig \<noteq> Some True
   \<and> activeProcessIds
       (processIncomingMessage ''6281'' ''sessionB'' defaultConfig ''id2''
          (run [Submit ''6281'' ''sessionA'' defaultConfig ''id1''] initialOrchestrator))
     = (activeProcessIds
          (run [Submit ''6281'' ''sessionA'' defaultConfig ''id1''] initialOrchestrator))
       (''6281'' \<mapsto> ''id2'')"
proof -
  let ?st = "run [Submit ''6281'' ''sessionA'' defaultConfig ''id1''] initialOrchestrator"
  have h1: "isOrchestratorEnabled (aiSettingsService ?st) (Some ''6281'')"
    by (simp add: eval_defs)
  have h2: "\<not> isConversationEscalated ?st ''6281'' ''sessionB''"
    by (simp add: eval_defs)
  have h3: "skipAiResponse defaultConfig \<noteq> Some True" by (simp add: defaultConfig_def)
  from slots_keyed_by_phone_number [OF h1 h2 h3, of "''id2''"] h1 h2 h3
  show ?thesis by (simp add: Let_def)
qed

end
